theory Spec2Isabelle
  imports Complex_Main "HOL-Library.Char_ord" "HOL-Library.List_Lexorder" "HOL-Library.AList"
begin

section \<open>Python values used by plotsoftware.py\<close>

text \<open>
  File names and cell values are Python \<open>str\<close>; they are modelled as \<open>string\<close> (lists of
  8-bit characters, so the model covers ASCII names).  \<open>sorted\<close> on \<open>str\<close> compares code
  points lexicographically, which is the order of \<open>HOL-Library.List_Lexorder\<close> over
  \<open>HOL-Library.Char_ord\<close>.  Exceptions are values of \<open>exn\<close>; a function that can raise
  returns \<open>exn + 'a\<close>.
\<close>

datatype exn = OSError | IndexError | KeyError | ZeroDivisionError

definition lower_char :: "char \<Rightarrow> char" where
  "lower_char c =
     (if CHR ''A'' \<le> c \<and> c \<le> CHR ''Z'' then char_of (of_char c + (32::nat)) else c)"

definition lower :: "string \<Rightarrow> string" where
  "lower s = map lower_char s"

definition endswith :: "string \<Rightarrow> string \<Rightarrow> bool" where
  "endswith s suf = (length suf \<le> length s \<and> drop (length s - length suf) s = suf)"

definition startswith :: "string \<Rightarrow> string \<Rightarrow> bool" where
  "startswith s pre = (take (length pre) s = pre)"

text \<open>The tuple of extensions that every directory scan of the program tests.\<close>

definition supported_exts :: "string list" where
  "supported_exts = [''.png'', ''.jpg'', ''.jpeg'', ''.gif'', ''.bmp'', ''.tiff'', ''.webp'']"

definition is_supported :: "string \<Rightarrow> bool" where
  "is_supported f = list_ex (endswith (lower f)) supported_exts"

text \<open>
  \<open>os.path\<close> on a POSIX system.  \<open>rfind_char\<close> is \<open>str.rfind\<close> for one character:
  the last index, or \<open>-1\<close>.
\<close>

fun rfind_from :: "char \<Rightarrow> string \<Rightarrow> int \<Rightarrow> int \<Rightarrow> int" where
  "rfind_from c [] i found = found"
| "rfind_from c (x # xs) i found = rfind_from c xs (i + 1) (if x = c then i else found)"

definition rfind_char :: "string \<Rightarrow> char \<Rightarrow> int" where
  "rfind_char s c = rfind_from c s 0 (-1)"

definition splitext :: "string \<Rightarrow> string \<times> string" where
  "splitext p =
     (let sepIndex = rfind_char p CHR ''/'';
          dotIndex = rfind_char p CHR ''.''
      in if dotIndex > sepIndex \<and>
            list_ex (\<lambda>c. c \<noteq> CHR ''.'') (take (nat (dotIndex - (sepIndex + 1))) (drop (nat (sepIndex + 1)) p))
         then (take (nat dotIndex) p, drop (nat dotIndex) p)
         else (p, []))"

definition path_join :: "string \<Rightarrow> string \<Rightarrow> string" where
  "path_join a b =
     (if startswith b ''/'' then b
      else if a = [] \<or> endswith a ''/'' then a @ b
      else a @ ''/'' @ b)"

definition basename :: "string \<Rightarrow> string" where
  "basename p = drop (nat (rfind_char p CHR ''/'' + 1)) p"

section \<open>The file system seen by the grid builder\<close>

text \<open>
  \<open>listdir\<close> is \<open>os.listdir\<close> (\<open>None\<close> where it raises \<open>OSError\<close>), \<open>isdir\<close> and
  \<open>isfile\<close> are \<open>os.path.isdir\<close> and \<open>os.path.isfile\<close>.
\<close>

record filesystem =
  listdir :: "string \<Rightarrow> string list option"
  isdir :: "string \<Rightarrow> bool"
  isfile :: "string \<Rightarrow> bool"

text \<open>
  The grid is a Python \<open>dict\<close> from row index to the list of cell strings of the row: an
  association list in insertion order, written with \<open>AList.update\<close> and read with
  \<open>map_of\<close>; \<open>len(grid)\<close> is its length.
\<close>

type_synonym grid = "(int \<times> string list) list"

section \<open>\<open>ImageGrid.build_grid\<close>\<close>

text \<open>The loop over \<open>folders\<close> that fills the set \<open>all_filenames\<close>.\<close>

fun collect_filenames ::
  "filesystem \<Rightarrow> (string \<times> string) list \<Rightarrow> string set \<Rightarrow> exn + string set" where
  "collect_filenames fs [] all_filenames = Inr all_filenames"
| "collect_filenames fs ((base_img, folder_path) # rest) all_filenames =
     (if isdir fs folder_path then
        (case listdir fs folder_path of
           None \<Rightarrow> Inl OSError
         | Some entries \<Rightarrow>
             collect_filenames fs rest (all_filenames \<union> set (filter is_supported entries)))
      else collect_filenames fs rest all_filenames)"

text \<open>One row of variants: the file name, then one cell per folder.\<close>

definition variant_row :: "filesystem \<Rightarrow> (string \<times> string) list \<Rightarrow> string \<Rightarrow> string list" where
  "variant_row fs folders filename =
     filename #
     map (\<lambda>(base_img, folder_path).
            let img_path = path_join folder_path filename
            in if isfile fs img_path then img_path else ''PLACEHOLDER:'') folders"

text \<open>\<open>for row_idx, filename in enumerate(sorted_filenames, start=2)\<close>.\<close>

fun fill_rows :: "filesystem \<Rightarrow> (string \<times> string) list \<Rightarrow> int \<Rightarrow> string list \<Rightarrow> grid \<Rightarrow> grid" where
  "fill_rows fs folders row_idx [] g = g"
| "fill_rows fs folders row_idx (filename # rest) g =
     fill_rows fs folders (row_idx + 1) rest
       (AList.update row_idx (variant_row fs folders filename) g)"

definition build_grid :: "filesystem \<Rightarrow> string \<Rightarrow> string \<Rightarrow> exn + grid" where
  "build_grid fs base_folder subfolders_dir =
     (case listdir fs base_folder of
        None \<Rightarrow> Inl OSError
      | Some entries \<Rightarrow>
          let base_images = filter is_supported entries
          in if base_images = [] then Inr []
             else
               let folders =
                     map (\<lambda>base_img. (base_img, path_join subfolders_dir (fst (splitext base_img))))
                       (sort base_images)
               in (case collect_filenames fs folders {} of
                     Inl e \<Rightarrow> Inl e
                   | Inr all_filenames \<Rightarrow>
                       let sorted_filenames = sorted_list_of_set all_filenames;
                           row0 = '''' # map (\<lambda>(base_img, folder_path). basename folder_path) folders;
                           row1 = ''Base Images'' #
                                  map (\<lambda>(base_img, folder_path). path_join base_folder base_img) folders
                       in Inr (fill_rows fs folders 2 sorted_filenames
                                 (AList.update 1 row1 (AList.update 0 row0 [])))))"

subsection \<open>What the claims about the built grid speak of\<close>

text \<open>
  The variant folder expected for a base image, the supported files a variant folder
  lists (none when it is not a directory), and their union over the base images: the
  distinct variant file names found across all variant folders.
\<close>

definition variant_folder :: "string \<Rightarrow> string \<Rightarrow> string" where
  "variant_folder subfolders_dir base_img = path_join subfolders_dir (fst (splitext base_img))"

definition listed_variants :: "filesystem \<Rightarrow> string \<Rightarrow> string list" where
  "listed_variants fs folder_path =
     (if isdir fs folder_path then
        (case listdir fs folder_path of Some es \<Rightarrow> filter is_supported es | None \<Rightarrow> [])
      else [])"

definition variant_filenames :: "filesystem \<Rightarrow> string \<Rightarrow> string list \<Rightarrow> string set" where
  "variant_filenames fs subfolders_dir entries =
     set (concat (map (\<lambda>base_img. listed_variants fs (variant_folder subfolders_dir base_img))
                    (filter is_supported entries)))"

text \<open>Column 0 of the rows 2, 3, ... of a grid, in row order.\<close>

definition variant_row_names :: "grid \<Rightarrow> string list" where
  "variant_row_names g =
     map (\<lambda>row_idx. case map_of g row_idx of Some (filename # cells) \<Rightarrow> filename | _ \<Rightarrow> [])
       [2..int (length g) - 1]"

text \<open>Case-insensitive lexicographic order, as the specification words it.\<close>

definition caseless_le :: "string \<Rightarrow> string \<Rightarrow> bool" where
  "caseless_le a b = (lower a \<le> lower b)"

text \<open>
  A small directory tree: two base images and a text file; the variant folder of
  \<open>cat.png\<close> holds \<open>a.png\<close> and \<open>B.png\<close>, the one of \<open>dog.jpg\<close> does not exist.
\<close>

definition fs_example :: filesystem where
  "fs_example =
     \<lparr>listdir = (\<lambda>p. if p = ''base'' then Some [''dog.jpg'', ''cat.png'', ''notes.txt'']
                      else if p = ''variants/cat'' then Some [''a.png'', ''B.png'', ''readme.md'']
                      else if p = ''variants'' then Some [''cat'']
                      else None),
      isdir = (\<lambda>p. p = ''base'' \<or> p = ''variants'' \<or> p = ''variants/cat''),
      isfile = (\<lambda>p. p = ''base/dog.jpg'' \<or> p = ''base/cat.png'' \<or> p = ''base/notes.txt'' \<or>
                     p = ''variants/cat/a.png'' \<or> p = ''variants/cat/B.png'' \<or>
                     p = ''variants/cat/readme.md'')\<rparr>"

definition grid_example :: grid where
  "grid_example =
     [(0, ['''', ''cat'', ''dog'']),
      (1, [''Base Images'', ''base/cat.png'', ''base/dog.jpg'']),
      (2, [''B.png'', ''variants/cat/B.png'', ''PLACEHOLDER:'']),
      (3, [''a.png'', ''variants/cat/a.png'', ''PLACEHOLDER:''])]"


section \<open>The viewer object\<close>

text \<open>
  \<open>py_get\<close> is list indexing \<open>xs[i]\<close>: a negative index counts from the end, an index
  out of range raises \<open>IndexError\<close>.  \<open>py_range a b\<close> is \<open>range(a, b)\<close>.  \<open>py_int\<close> is
  \<open>int(x)\<close> on a number, which truncates towards zero.  \<open>truthy\<close> is the truth value
  of an attribute that holds \<open>None\<close> or a string.
\<close>

definition py_get :: "'a list \<Rightarrow> int \<Rightarrow> exn + 'a" where
  "py_get xs i =
     (if 0 \<le> i \<and> i < int (length xs) then Inr (xs ! nat i)
      else if i < 0 \<and> - int (length xs) \<le> i then Inr (xs ! nat (int (length xs) + i))
      else Inl IndexError)"

definition py_range :: "int \<Rightarrow> int \<Rightarrow> int list" where
  "py_range a b = [a..b - 1]"

definition py_int :: "real \<Rightarrow> int" where
  "py_int x = (if 0 \<le> x then \<lfloor>x\<rfloor> else \<lceil>x\<rceil>)"

definition truthy :: "string option \<Rightarrow> bool" where
  "truthy v = (case v of None \<Rightarrow> False | Some s \<Rightarrow> s \<noteq> [])"

text \<open>The module constants that the modelled methods read.\<close>

definition MAX_HEADER_HEIGHT :: int where "MAX_HEADER_HEIGHT = 200"
definition MAX_FILENAME_WIDTH :: int where "MAX_FILENAME_WIDTH = 200"
definition MIN_COLUMN_0_WIDTH :: int where "MIN_COLUMN_0_WIDTH = 128"
definition MAX_COLUMN_0_WIDTH :: int where "MAX_COLUMN_0_WIDTH = 256"
definition MIN_ROW_0_HEIGHT :: int where "MIN_ROW_0_HEIGHT = 256"
definition MAX_ROW_0_HEIGHT :: int where "MAX_ROW_0_HEIGHT = 128"
definition MIN_HEADER_HEIGHT :: int where "MIN_HEADER_HEIGHT = 1"
definition MIN_FILENAME_WIDTH :: int where "MIN_FILENAME_WIDTH = 1"
definition MIN_TEXT_CELL_WIDTH :: int where "MIN_TEXT_CELL_WIDTH = 1"
definition MIN_TEXT_CELL_HEIGHT :: int where "MIN_TEXT_CELL_HEIGHT = 1"
definition FONT_SIZE :: int where "FONT_SIZE = 14"
definition ZOOM_SPEED :: real where "ZOOM_SPEED = 5 / 100"
definition MIN_ZOOM :: real where "MIN_ZOOM = 5 / 100"
definition MAX_ZOOM :: real where "MAX_ZOOM = 3"
definition BUFFER_ROWS :: int where "BUFFER_ROWS = 2"
definition BUFFER_COLS :: int where "BUFFER_COLS = 2"
definition INFO_HEIGHT :: int where "INFO_HEIGHT = 30"

text \<open>
  A decoded bitmap (\<open>pygame.Surface\<close>) is kept abstract: the image decoded from a path,
  the tinted box drawn for a placeholder cell with its text, or the box drawn when
  decoding failed.
\<close>

datatype surface = Decoded string | PlaceholderBox string | ErrorBox

text \<open>
  The attributes of an \<open>ImageGrid\<close> that the modelled methods read or write, and the two
  module globals \<open>DEFAULT_CELL_SIZE\<close> and \<open>screen\<close> (of which only the size is read).
  A Python float is the real number it denotes.  Every float operation of the source
  (an addition, subtraction, multiplication or true division with a float operand or
  result, and the reading of a float literal) yields the rounding of the exact result;
  \<open>float_round\<close> is that rounding (binary64, to nearest, in the interpreter), and the
  model assumes nothing about it.  An operand that is still a Python \<open>int\<close> (a scroll
  offset before the first anchored zoom) is rounded all the same, which changes nothing
  for integers a float holds exactly.  The export queue is the list of tuples put so
  far, oldest first.
\<close>

record image_grid =
  grid :: grid
  image_cache :: "(string \<times> surface) list"
  cell_size :: int
  zoom_level :: real
  scroll_offset :: "real \<times> real"
  fullscreen_image :: "string option"
  fullscreen_original :: "surface option"
  fullscreen_row :: "int option"
  fullscreen_col :: "int option"
  max_rows :: int
  max_cols :: int
  col_widths :: "int list"
  row_heights :: "int list"
  export_queue :: "(string \<times> string option) list"
  export_in_progress :: bool
  current_progress :: real
  current_message :: string
  base_resolution :: string
  DEFAULT_CELL_SIZE :: int
  screen_get_size :: "int \<times> int"
  float_round :: "real \<Rightarrow> real"

subsection \<open>Viewport: \<open>update_cell_sizes\<close>, \<open>get_visible_cells\<close>, \<open>zoom\<close>, \<open>scroll\<close>\<close>

definition update_cell_sizes :: "image_grid \<Rightarrow> image_grid" where
  "update_cell_sizes s =
     (let zoomed_size = py_int (float_round s (real_of_int (DEFAULT_CELL_SIZE s) * zoom_level s))
      in s\<lparr>col_widths :=
              map (\<lambda>col. if col = 0
                          then max MIN_TEXT_CELL_WIDTH
                                 (min MAX_FILENAME_WIDTH (max MIN_FILENAME_WIDTH zoomed_size))
                          else zoomed_size) (py_range 0 (max_cols s)),
            row_heights :=
              map (\<lambda>row. if row = 0
                          then max MIN_TEXT_CELL_HEIGHT
                                 (min MAX_HEADER_HEIGHT (max MIN_HEADER_HEIGHT zoomed_size))
                          else zoomed_size) (py_range 0 (max_rows s))\<rparr>)"

definition get_visible_cells :: "image_grid \<Rightarrow> int \<Rightarrow> int \<Rightarrow> exn + (int \<times> int \<times> int \<times> int)" where
  "get_visible_cells s screen_width screen_height =
     (if cell_size s = 0 then Inl ZeroDivisionError
      else
        let fl = float_round s;
            view_height = screen_height - INFO_HEIGHT;
            start_row = max 0 (py_int (fl (snd (scroll_offset s) / real_of_int (cell_size s))));
            end_row = min (max_rows s)
                        (py_int (fl (fl (snd (scroll_offset s) + real_of_int view_height)
                                     / real_of_int (cell_size s)))
                         + BUFFER_ROWS);
            start_col = max 0 (py_int (fl (fst (scroll_offset s) / real_of_int (cell_size s))));
            end_col = min (max_cols s)
                        (py_int (fl (fl (fst (scroll_offset s) + real_of_int screen_width)
                                     / real_of_int (cell_size s)))
                         + BUFFER_COLS)
        in Inr (start_row, end_row, start_col, end_col))"

definition enforce_scroll_bounds :: "int \<times> int \<Rightarrow> image_grid \<Rightarrow> image_grid" where
  "enforce_scroll_bounds screen_size s =
     (if truthy (fullscreen_image s) then s
      else
        let screen_width = fst screen_size;
            screen_height = snd screen_size;
            max_scroll_x = max 0 (max_cols s * cell_size s - screen_width);
            max_scroll_y = max 0 (max_rows s * cell_size s - (screen_height - INFO_HEIGHT))
        in s\<lparr>scroll_offset :=
                (max 0 (min (real_of_int max_scroll_x) (fst (scroll_offset s))),
                 max 0 (min (real_of_int max_scroll_y) (snd (scroll_offset s))))\<rparr>)"

text \<open>
  \<open>zoom(direction, mouse_pos)\<close>: \<open>mouse_pos\<close> is \<open>None\<close> or a pair, and a pair is always
  true in \<open>if mouse_pos\<close>.  The division by \<open>cell_size\<close> raises when it is zero.
\<close>

definition zoom :: "int \<Rightarrow> (int \<times> int) option \<Rightarrow> image_grid \<Rightarrow> exn + image_grid" where
  "zoom direction mouse_pos s =
     (if truthy (fullscreen_image s) then Inr s
      else
        let fl = float_round s;
            s1 = s\<lparr>zoom_level :=
                     max (fl MIN_ZOOM)
                       (min (fl MAX_ZOOM)
                          (fl (zoom_level s + fl (real_of_int direction * fl ZOOM_SPEED))))\<rparr>;
            s2 = update_cell_sizes s1
        in case mouse_pos of
             Some (mx, my) \<Rightarrow>
               if cell_size s2 = 0 then Inl ZeroDivisionError
               else
                 let grid_x = fl (fl (fst (scroll_offset s2) + real_of_int mx)
                                  / real_of_int (cell_size s2));
                     grid_y = fl (fl (fl (snd (scroll_offset s2) + real_of_int my)
                                      - real_of_int INFO_HEIGHT)
                                  / real_of_int (cell_size s2));
                     s3 = s2\<lparr>cell_size :=
                                py_int (fl (real_of_int (DEFAULT_CELL_SIZE s2) * zoom_level s2))\<rparr>;
                     s4 = s3\<lparr>scroll_offset :=
                                (fl (fl (grid_x * real_of_int (cell_size s3)) - real_of_int mx),
                                 fl (fl (grid_y * real_of_int (cell_size s3))
                                     - real_of_int (my - INFO_HEIGHT)))\<rparr>
                 in Inr (enforce_scroll_bounds (screen_get_size s4) s4)
           | None \<Rightarrow>
               let s3 = s2\<lparr>cell_size :=
                          py_int (fl (real_of_int (DEFAULT_CELL_SIZE s2) * zoom_level s2))\<rparr>
               in Inr (enforce_scroll_bounds (screen_get_size s3) s3))"

definition scroll :: "int \<Rightarrow> int \<Rightarrow> image_grid \<Rightarrow> image_grid" where
  "scroll dx dy s =
     (if truthy (fullscreen_image s) then s
      else
        let s1 = s\<lparr>scroll_offset :=
                     (float_round s (fst (scroll_offset s) + real_of_int dx),
                      float_round s (snd (scroll_offset s) + real_of_int dy))\<rparr>
        in enforce_scroll_bounds (screen_get_size s1) s1)"

subsection \<open>Fullscreen: \<open>toggle_fullscreen\<close>, \<open>navigate_fullscreen\<close>\<close>

text \<open>
  \<open>decode\<close> stands for \<open>pygame.image.load\<close>: \<open>None\<close> where it raises.  Reading
  \<open>self.grid[row][col]\<close> raises \<open>KeyError\<close> for a missing row and \<open>IndexError\<close> for a
  column out of range, before any attribute is written.  \<open>placeholder_text\<close> is
  \<open>path.split(":", 1)[1].split(" at ")[0]\<close> for a path that starts with
  \<open>PLACEHOLDER:\<close>: what follows the first colon, up to the first \<open>" at "\<close>;
  \<open>before_sep sep s\<close> is \<open>s.split(sep)[0]\<close> for a non-empty separator.
\<close>

fun before_sep :: "string \<Rightarrow> string \<Rightarrow> string" where
  "before_sep sep [] = []"
| "before_sep sep (c # cs) =
     (if take (length sep) (c # cs) = sep then [] else c # before_sep sep cs)"

definition placeholder_text :: "string \<Rightarrow> string" where
  "placeholder_text path =
     before_sep '' at '' (drop 1 (dropWhile (\<lambda>c. c \<noteq> CHR '':'') path))"

definition toggle_fullscreen ::
  "(string \<Rightarrow> surface option) \<Rightarrow> int \<Rightarrow> int \<Rightarrow> image_grid \<Rightarrow> exn + image_grid" where
  "toggle_fullscreen decode row col s =
     (if fullscreen_row s = Some row \<and> fullscreen_col s = Some col then
        Inr (s\<lparr>fullscreen_image := None, fullscreen_original := None,
                fullscreen_row := None, fullscreen_col := None\<rparr>)
      else
        (case map_of (grid s) row of
           None \<Rightarrow> Inl KeyError
         | Some cells \<Rightarrow>
             (case py_get cells col of
                Inl e \<Rightarrow> Inl e
              | Inr path \<Rightarrow>
                  Inr (s\<lparr>fullscreen_image := Some path,
                          fullscreen_row := Some row,
                          fullscreen_col := Some col,
                          fullscreen_original :=
                            Some (if startswith path ''PLACEHOLDER:''
                                  then PlaceholderBox (placeholder_text path)
                                  else (case decode path of
                                          Some img \<Rightarrow> img
                                        | None \<Rightarrow> ErrorBox))\<rparr>))))"

definition navigate_fullscreen ::
  "(string \<Rightarrow> surface option) \<Rightarrow> string \<Rightarrow> image_grid \<Rightarrow> exn + image_grid" where
  "navigate_fullscreen decode direction s =
     (case (fullscreen_row s, fullscreen_col s) of
        (Some row, Some col) \<Rightarrow>
          if \<not> truthy (fullscreen_image s) then Inr s
          else
            let finish = (\<lambda>new_row new_col.
                  if new_row = row \<and> new_col = col then Inr s
                  else (case map_of (grid s) new_row of
                          None \<Rightarrow> Inr s
                        | Some cells \<Rightarrow>
                            if new_col \<ge> int (length cells) then Inr s
                            else toggle_fullscreen decode new_row new_col s))
            in if direction = ''left'' then finish row (max 1 (col - 1))
               else if direction = ''right'' then
                 (case map_of (grid s) row of
                    None \<Rightarrow> Inl KeyError
                  | Some cells \<Rightarrow>
                      if col + 1 < int (length cells) then finish row (col + 1) else Inr s)
               else if direction = ''up'' then finish (max 1 (row - 1)) col
               else if direction = ''down'' then
                 (if row + 1 < max_rows s then finish (row + 1) col else Inr s)
               else Inr s
      | _ \<Rightarrow> Inr s)"

subsection \<open>Image cache: \<open>unload_distant_images\<close>\<close>

text \<open>
  The two nested loops that fill the set \<open>visible_paths\<close>, then the loop over a copy of
  the cache keys that deletes every key which is neither visible nor the fullscreen
  image.
\<close>

fun add_visible_cols :: "string list \<Rightarrow> int list \<Rightarrow> string set \<Rightarrow> exn + string set" where
  "add_visible_cols cells [] visible_paths = Inr visible_paths"
| "add_visible_cols cells (col # cols) visible_paths =
     (case py_get cells col of
        Inl e \<Rightarrow> Inl e
      | Inr path \<Rightarrow> add_visible_cols cells cols (insert path visible_paths))"

fun add_visible_rows ::
  "grid \<Rightarrow> int \<Rightarrow> int \<Rightarrow> int list \<Rightarrow> string set \<Rightarrow> exn + string set" where
  "add_visible_rows g start_col end_col [] visible_paths = Inr visible_paths"
| "add_visible_rows g start_col end_col (row # rows) visible_paths =
     (case map_of g row of
        None \<Rightarrow> add_visible_rows g start_col end_col rows visible_paths
      | Some cells \<Rightarrow>
          (case add_visible_cols cells
                  (py_range start_col (min (end_col + 1) (int (length cells)))) visible_paths of
             Inl e \<Rightarrow> Inl e
           | Inr visible_paths' \<Rightarrow> add_visible_rows g start_col end_col rows visible_paths'))"

fun evict :: "string set \<Rightarrow> string option \<Rightarrow> string list \<Rightarrow> (string \<times> surface) list \<Rightarrow> (string \<times> surface) list" where
  "evict visible_paths fullscreen [] cache = cache"
| "evict visible_paths fullscreen (path # paths) cache =
     evict visible_paths fullscreen paths
       (if path \<notin> visible_paths \<and> Some path \<noteq> fullscreen then AList.delete path cache else cache)"

definition unload_distant_images :: "int \<times> int \<times> int \<times> int \<Rightarrow> image_grid \<Rightarrow> exn + image_grid" where
  "unload_distant_images visible_cells s =
     (case visible_cells of (start_row, end_row, start_col, end_col) \<Rightarrow>
        (case add_visible_rows (grid s) start_col end_col (py_range start_row (end_row + 1)) {} of
           Inl e \<Rightarrow> Inl e
         | Inr visible_paths \<Rightarrow>
             Inr (s\<lparr>image_cache :=
                     evict visible_paths (fullscreen_image s) (map fst (image_cache s))
                       (image_cache s)\<rparr>)))"

subsection \<open>What the claims about the viewer speak of\<close>

text \<open>
  The focused cell, the bounds of the data cells (\<open>row \<ge> 1\<close>, \<open>col \<ge> 1\<close>, inside the grid),
  and the cell a navigation aims at: the neighbour in the given direction.
\<close>

definition focused_at :: "image_grid \<Rightarrow> int \<Rightarrow> int \<Rightarrow> bool" where
  "focused_at s row col = (fullscreen_row s = Some row \<and> fullscreen_col s = Some col)"

definition in_data_bounds :: "image_grid \<Rightarrow> int \<Rightarrow> int \<Rightarrow> bool" where
  "in_data_bounds s row col =
     (1 \<le> row \<and> 1 \<le> col \<and> row < max_rows s \<and>
      (case map_of (grid s) row of None \<Rightarrow> False | Some cells \<Rightarrow> col < int (length cells)))"

definition nav_target :: "string \<Rightarrow> int \<Rightarrow> int \<Rightarrow> (int \<times> int) option" where
  "nav_target direction row col =
     (if direction = ''left'' then Some (row, col - 1)
      else if direction = ''right'' then Some (row, col + 1)
      else if direction = ''up'' then Some (row - 1, col)
      else if direction = ''down'' then Some (row + 1, col)
      else None)"

text \<open>
  A path is visible for a range \<open>(start_row, end_row, start_col, end_col)\<close> when it is the
  value \<open>grid[row][col]\<close> of a cell with \<open>start_row \<le> row \<le> end_row\<close> and
  \<open>start_col \<le> col \<le> end_col\<close> that lies in its row.
\<close>

definition in_visible_range :: "grid \<Rightarrow> int \<times> int \<times> int \<times> int \<Rightarrow> string \<Rightarrow> bool" where
  "in_visible_range g visible_cells path =
     (case visible_cells of (start_row, end_row, start_col, end_col) \<Rightarrow>
        \<exists>row \<in> set [start_row..end_row]. \<exists>col \<in> set [start_col..end_col].
          (case map_of g row of
             None \<Rightarrow> False
           | Some cells \<Rightarrow> col < int (length cells) \<and> py_get cells col = Inr path))"

text \<open>
  A viewer on the example grid, focused on the cell of row 2, column 1, with all four
  images in the cache and float operations that happen to be exact; and a decoder that
  reads every path.
\<close>

definition viewer_example :: image_grid where
  "viewer_example =
     \<lparr>grid = grid_example,
      image_cache = [(''base/cat.png'', Decoded ''base/cat.png''),
                     (''base/dog.jpg'', Decoded ''base/dog.jpg''),
                     (''variants/cat/B.png'', Decoded ''variants/cat/B.png''),
                     (''variants/cat/a.png'', Decoded ''variants/cat/a.png'')],
      cell_size = 100,
      zoom_level = 1,
      scroll_offset = (0, 0),
      fullscreen_image = Some ''variants/cat/B.png'',
      fullscreen_original = Some (Decoded ''variants/cat/B.png''),
      fullscreen_row = Some 2,
      fullscreen_col = Some 1,
      max_rows = 4,
      max_cols = 3,
      col_widths = [100, 100, 100],
      row_heights = [100, 100, 100, 100],
      export_queue = [],
      export_in_progress = False,
      current_progress = 0,
      current_message = [],
      base_resolution = ''Unknown'',
      DEFAULT_CELL_SIZE = 100,
      screen_get_size = (1024, 768),
      float_round = (\<lambda>x. x)\<rparr>"

definition decode_all :: "string \<Rightarrow> surface option" where
  "decode_all path = Some (Decoded path)"

subsection \<open>What the claim about the anchored zoom speaks of\<close>

text \<open>
  The grid coordinate under a pixel, by the formulas with which \<open>zoom\<close> computes
  \<open>grid_x\<close> and \<open>grid_y\<close> (undefined, a \<open>ZeroDivisionError\<close>, for a cell size of zero);
  the scroll offset that \<open>zoom\<close> recomputes from a grid coordinate for a new cell size;
  and the content bounds within which \<open>enforce_scroll_bounds\<close> leaves an offset as it is.
\<close>

definition grid_coord :: "image_grid \<Rightarrow> int \<times> int \<Rightarrow> exn + real \<times> real" where
  "grid_coord s m =
     (if cell_size s = 0 then Inl ZeroDivisionError
      else
        let fl = float_round s
        in Inr (fl (fl (fst (scroll_offset s) + real_of_int (fst m)) / real_of_int (cell_size s)),
                fl (fl (fl (snd (scroll_offset s) + real_of_int (snd m)) - real_of_int INFO_HEIGHT)
                    / real_of_int (cell_size s))))"

definition anchor_offset :: "(real \<Rightarrow> real) \<Rightarrow> real \<times> real \<Rightarrow> int \<times> int \<Rightarrow> int \<Rightarrow> real \<times> real" where
  "anchor_offset fl g m new_cell_size =
     (fl (fl (fst g * real_of_int new_cell_size) - real_of_int (fst m)),
      fl (fl (snd g * real_of_int new_cell_size) - real_of_int (snd m - INFO_HEIGHT)))"

definition offset_in_bounds :: "image_grid \<Rightarrow> real \<times> real \<Rightarrow> bool" where
  "offset_in_bounds s offset =
     (0 \<le> fst offset \<and>
      fst offset \<le> real_of_int (max 0 (max_cols s * cell_size s - fst (screen_get_size s))) \<and>
      0 \<le> snd offset \<and>
      snd offset \<le> real_of_int (max 0 (max_rows s * cell_size s
                                          - (snd (screen_get_size s) - INFO_HEIGHT))))"

text \<open>
  The anchor contract for one call: \<open>zoom\<close> returns, the grid coordinate under the anchor
  pixel is defined before the call, and if the recomputed offset is not clamped, the
  coordinate is defined after the call and has moved by less than one cell on each axis.
\<close>

definition anchor_preserved :: "image_grid \<Rightarrow> int \<Rightarrow> int \<times> int \<Rightarrow> bool" where
  "anchor_preserved s direction m =
     (case zoom direction (Some m) s of
        Inl e \<Rightarrow> False
      | Inr s' \<Rightarrow>
          (case grid_coord s m of
             Inl e \<Rightarrow> False
           | Inr g \<Rightarrow>
               offset_in_bounds s' (anchor_offset (float_round s) g m (cell_size s')) \<longrightarrow>
               (case grid_coord s' m of
                  Inl e \<Rightarrow> False
                | Inr g' \<Rightarrow> \<bar>fst g' - fst g\<bar> < 1 \<and> \<bar>snd g' - snd g\<bar> < 1)))"

text \<open>
  Float operations round with relative error at most \<open>eps\<close> (for binary64, absent
  overflow and underflow, \<open>eps = 2\<^sup>-\<^sup>5\<^sup>3\<close>).
\<close>

definition rounds_within :: "real \<Rightarrow> (real \<Rightarrow> real) \<Rightarrow> bool" where
  "rounds_within eps fl = (\<forall>x. \<bar>fl x - x\<bar> \<le> eps * \<bar>x\<bar>)"

text \<open>
  The example viewer in the grid view in a window of 200 by 200 pixels, where the grid
  is larger than the window; and a viewer whose base images are 10 pixels large, zoomed
  out to a tenth, so that a cell is one pixel.
\<close>

definition small_window_example :: image_grid where
  "small_window_example =
     viewer_example\<lparr>fullscreen_image := None, fullscreen_original := None,
                    fullscreen_row := None, fullscreen_col := None,
                    screen_get_size := (200, 200)\<rparr>"

definition tiny_example :: image_grid where
  "tiny_example =
     viewer_example\<lparr>fullscreen_image := None, fullscreen_original := None,
                    fullscreen_row := None, fullscreen_col := None,
                    DEFAULT_CELL_SIZE := 10, zoom_level := 1 / 10, cell_size := 1,
                    col_widths := [1, 1, 1], row_heights := [1, 1, 1, 1]\<rparr>"

text \<open>The viewer in the small window after one anchored zoom step at the pixel \<open>(10, 40)\<close>.\<close>

definition small_window_zoomed :: image_grid where
  "small_window_zoomed =
     small_window_example\<lparr>zoom_level := 21 / 20, col_widths := [105, 105, 105],
                           row_heights := [105, 105, 105, 105], cell_size := 105,
                           scroll_offset := (1 / 2, 1 / 2)\<rparr>"

section \<open>\<open>ImageGrid.draw_wrapped_text\<close>\<close>

text \<open>
  The font is an external collaborator: \<open>size_width\<close> is \<open>font.size(text)[0]\<close>, the
  measured pixel width of a string, and \<open>get_height\<close> is \<open>font.get_height()\<close>.  Slices
  \<open>s[:n]\<close> and \<open>s[n:]\<close> follow Python (a negative bound counts from the end); \<open>strip\<close>
  and \<open>lstrip\<close> remove the ASCII characters for which \<open>str.isspace\<close> holds.
\<close>

record pg_font =
  size_width :: "string \<Rightarrow> int"
  get_height :: int

definition py_prefix :: "'a list \<Rightarrow> int \<Rightarrow> 'a list" where
  "py_prefix s n = (if 0 \<le> n then take (nat n) s else take (nat (int (length s) + n)) s)"

definition py_suffix :: "'a list \<Rightarrow> int \<Rightarrow> 'a list" where
  "py_suffix s n = (if 0 \<le> n then drop (nat n) s else drop (nat (int (length s) + n)) s)"

definition is_space :: "char \<Rightarrow> bool" where
  "is_space c = (let n = (of_char c :: nat) in (9 \<le> n \<and> n \<le> 13) \<or> (28 \<le> n \<and> n \<le> 32))"

definition lstrip :: "string \<Rightarrow> string" where
  "lstrip s = dropWhile is_space s"

definition strip :: "string \<Rightarrow> string" where
  "strip s = rev (dropWhile is_space (rev (dropWhile is_space s)))"

text \<open>
  The inner \<open>while low <= high\<close> loop: binary search over the character count for a
  prefix of the remaining text whose width fits.
\<close>

function fit_prefix :: "pg_font \<Rightarrow> int \<Rightarrow> string \<Rightarrow> int \<Rightarrow> int \<Rightarrow> string \<Rightarrow> string" where
  "fit_prefix font max_width remaining_text low high best =
     (if low \<le> high then
        (if size_width font (py_prefix remaining_text ((low + high) div 2)) \<le> max_width
         then fit_prefix font max_width remaining_text ((low + high) div 2 + 1) high
                (py_prefix remaining_text ((low + high) div 2))
         else fit_prefix font max_width remaining_text low ((low + high) div 2 - 1) best)
      else best)"
  by pat_completeness auto
termination
  by (relation "measure (\<lambda>(font, max_width, remaining_text, low, high, best). nat (high + 1 - low))")
     auto

text \<open>
  \<open>for i in range(len(remaining_text), 0, -1)\<close>: the longest prefix that fits together
  with the ellipsis, or the empty string.
\<close>

fun ellipsis_prefix :: "pg_font \<Rightarrow> int \<Rightarrow> string \<Rightarrow> nat \<Rightarrow> string" where
  "ellipsis_prefix font max_width remaining_text 0 = []"
| "ellipsis_prefix font max_width remaining_text (Suc i) =
     (if size_width font (py_prefix remaining_text (int (Suc i)) @ ''...'') \<le> max_width
      then py_prefix remaining_text (int (Suc i)) @ ''...''
      else ellipsis_prefix font max_width remaining_text i)"

text \<open>The value of \<open>best\<close> before the word-boundary trim, and the trim.\<close>

definition choose_best :: "pg_font \<Rightarrow> int \<Rightarrow> string \<Rightarrow> string" where
  "choose_best font max_width remaining_text =
     (let best = fit_prefix font max_width remaining_text 0 (int (length remaining_text)) []
      in if best = [] then
           (let best' = ellipsis_prefix font max_width remaining_text (length remaining_text)
            in if best' = [] then (if size_width font ''...'' \<le> max_width then ''...'' else [])
               else best')
         else best)"

definition trim_to_word :: "pg_font \<Rightarrow> int \<Rightarrow> string \<Rightarrow> string \<Rightarrow> string" where
  "trim_to_word font max_width remaining_text best =
     (if CHR '' '' \<in> set best \<and> length best < length remaining_text then
        (let last_space = rfind_char best CHR '' ''
         in if last_space > 0 then
              (let candidate = py_prefix best last_space
               in if size_width font candidate \<le> max_width then candidate else best)
            else best)
      else best)"

text \<open>
  The outer \<open>while remaining_text and len(lines) < max_lines\<close> loop; it returns the lines
  and the text that is left.
\<close>

function wrap_loop ::
  "pg_font \<Rightarrow> int \<Rightarrow> int \<Rightarrow> string \<Rightarrow> string list \<Rightarrow> string list \<times> string" where
  "wrap_loop font max_width max_lines remaining_text lines =
     (if remaining_text \<noteq> [] \<and> int (length lines) < max_lines then
        (if choose_best font max_width remaining_text \<noteq> [] then
           wrap_loop font max_width max_lines
             (lstrip (py_suffix remaining_text
                        (int (length (trim_to_word font max_width remaining_text
                                        (choose_best font max_width remaining_text))))))
             (lines @ [trim_to_word font max_width remaining_text
                         (choose_best font max_width remaining_text)])
         else (lines, remaining_text))
      else (lines, remaining_text))"
  by pat_completeness auto
termination
proof (relation "measure (\<lambda>(font, max_width, max_lines, remaining_text, lines). length remaining_text)")
  show "wf (measure (\<lambda>(font, max_width, max_lines, remaining_text, lines). length remaining_text))"
    by simp
next
  fix font :: pg_font and max_width max_lines :: int and remaining_text :: string
    and lines :: "string list"
  assume "remaining_text \<noteq> [] \<and> int (length lines) < max_lines"
    and best: "choose_best font max_width remaining_text \<noteq> []"
  let ?best = "choose_best font max_width remaining_text"
  let ?line = "trim_to_word font max_width remaining_text ?best"
  have "?line \<noteq> []"
    using best by (auto simp: trim_to_word_def Let_def py_prefix_def)
  then have "0 < length ?line" by simp
  moreover have "length (lstrip (py_suffix remaining_text (int (length ?line))))
                   \<le> length remaining_text - length ?line"
    using length_dropWhile_le[of is_space "drop (length ?line) remaining_text"]
    by (simp add: lstrip_def py_suffix_def)
  moreover have "0 < length remaining_text"
    using \<open>remaining_text \<noteq> [] \<and> int (length lines) < max_lines\<close> by simp
  ultimately
  have "length (lstrip (py_suffix remaining_text (int (length ?line)))) < length remaining_text"
    by arith
  then
  show "((font, max_width, max_lines,
          lstrip (py_suffix remaining_text (int (length ?line))), lines @ [?line]),
         (font, max_width, max_lines, remaining_text, lines))
        \<in> measure (\<lambda>(font, max_width, max_lines, remaining_text, lines). length remaining_text)"
    by simp
qed

text \<open>
  The final step.  \<open>shrink_last\<close> is the loop
  \<open>while last_line and font.size(last_line[:-1] + ellipsis)[0] > max_width\<close>.
\<close>

function shrink_last :: "pg_font \<Rightarrow> int \<Rightarrow> string \<Rightarrow> string" where
  "shrink_last font max_width last_line =
     (if last_line \<noteq> [] \<and> size_width font (butlast last_line @ ''...'') > max_width
      then shrink_last font max_width (butlast last_line)
      else last_line)"
  by pat_completeness auto
termination
  by (relation "measure (\<lambda>(font, max_width, last_line). length last_line)") auto

definition add_ellipsis :: "pg_font \<Rightarrow> int \<Rightarrow> int \<Rightarrow> string list \<times> string \<Rightarrow> string list" where
  "add_ellipsis font max_width max_lines state =
     (case state of (lines, remaining_text) \<Rightarrow>
        if remaining_text \<noteq> [] \<and> int (length lines) = max_lines then
          (if size_width font (last lines) + size_width font ''...'' \<le> max_width
           then butlast lines @ [last lines @ ''...'']
           else butlast lines @ [shrink_last font max_width (last lines) @ ''...''])
        else lines)"

declare fit_prefix.simps [simp del] wrap_loop.simps [simp del] shrink_last.simps [simp del]

text \<open>
  The method draws the lines it has computed, one below the other; the model returns
  them.  \<open>rect\<close> is given by its width and height.
\<close>

definition draw_wrapped_text :: "pg_font \<Rightarrow> string \<Rightarrow> int \<times> int \<Rightarrow> exn + string list" where
  "draw_wrapped_text font text rect =
     (if text = [] \<or> strip text = [] then Inr []
      else if get_height font = 0 then Inl ZeroDivisionError
      else
        let line_height = get_height font;
            max_width = fst rect - 10;
            max_lines = max 1 ((snd rect - 10) div line_height)
        in Inr (add_ellipsis font max_width max_lines
                  (wrap_loop font max_width max_lines (strip text) [])))"

text \<open>A fixed-pitch font: every character is 10 pixels wide, a line 10 pixels high.\<close>

definition font_mono10 :: pg_font where
  "font_mono10 = \<lparr>size_width = (\<lambda>s. 10 * int (length s)), get_height = 10\<rparr>"

section \<open>The export jobs\<close>

text \<open>
  The PIL font is an external collaborator: \<open>getbbox\<close> is \<open>font.getbbox(text)\<close>, the box
  \<open>(left, top, right, bottom)\<close> of a string.  \<open>split_on\<close> is \<open>str.split(sep)\<close> for a
  one-character separator.
\<close>

record pil_font =
  getbbox :: "string \<Rightarrow> int \<times> int \<times> int \<times> int"

fun split_on :: "char \<Rightarrow> string \<Rightarrow> string list" where
  "split_on sep [] = [[]]"
| "split_on sep (c # cs) =
     (if c = sep then [] # split_on sep cs
      else (case split_on sep cs of
              [] \<Rightarrow> [[c]]
            | w # ws \<Rightarrow> (c # w) # ws))"

subsection \<open>The layout pass of \<open>_export_grid\<close>\<close>

text \<open>
  The first loop of \<open>_export_grid\<close> measures the labels of column 0 (row 0 counts as
  the empty text); the second walks the headers of row 0.  \<open>(MAX_ROW_0_HEIGHT - 10) //
  line_height\<close> raises when the font reports a line height of zero.
\<close>

definition column_0_step :: "pil_font \<Rightarrow> grid \<Rightarrow> int \<Rightarrow> int \<Rightarrow> int" where
  "column_0_step font g row column_0_width =
     (case map_of g row of
        Some (cell0 # cells) \<Rightarrow>
          (let text = (if row > 0 then cell0 else [])
           in if text \<noteq> [] then
                (case getbbox font text of (x0, y0, x1, y1) \<Rightarrow>
                   max column_0_width (min (x1 - x0 + 20) MAX_COLUMN_0_WIDTH))
              else column_0_width)
      | _ \<Rightarrow> column_0_width)"

fun row_0_loop :: "pil_font \<Rightarrow> string list \<Rightarrow> int \<Rightarrow> exn + int" where
  "row_0_loop font [] row_0_height = Inr row_0_height"
| "row_0_loop font (text # rest) row_0_height =
     (if text \<noteq> [] then
        (case getbbox font ''A'' of (x0, y0, x1, y1) \<Rightarrow>
           if y1 - y0 = 0 then Inl ZeroDivisionError
           else row_0_loop font rest
                  (max row_0_height
                     (min (MIN_ROW_0_HEIGHT + int (length (split_on CHR 0x0A text)) * (y1 - y0))
                        MAX_ROW_0_HEIGHT)))
      else row_0_loop font rest row_0_height)"

record layout =
  column_0_width :: int
  row_0_height :: int
  total_width :: int
  total_height :: int

definition export_layout :: "pil_font \<Rightarrow> image_grid \<Rightarrow> exn + layout" where
  "export_layout font s =
     (let c0 = fold (column_0_step font (grid s)) (py_range 0 (max_rows s)) MIN_COLUMN_0_WIDTH
      in case (case map_of (grid s) 0 of
                 None \<Rightarrow> Inr MIN_ROW_0_HEIGHT
               | Some row0 \<Rightarrow> row_0_loop font row0 MIN_ROW_0_HEIGHT) of
           Inl e \<Rightarrow> Inl e
         | Inr r0 \<Rightarrow>
             Inr \<lparr>column_0_width = c0,
                  row_0_height = r0,
                  total_width = c0 + (max_cols s - 1) * cell_size s,
                  total_height = r0 + (max_rows s - 1) * cell_size s\<rparr>)"

text \<open>The size and the box of a cell, as the drawing loop computes them.\<close>

definition cell_width :: "layout \<Rightarrow> image_grid \<Rightarrow> int \<Rightarrow> int" where
  "cell_width lay s col = (if col = 0 then column_0_width lay else cell_size s)"

definition cell_height :: "layout \<Rightarrow> image_grid \<Rightarrow> int \<Rightarrow> int" where
  "cell_height lay s row = (if row = 0 then row_0_height lay else cell_size s)"

definition cell_box :: "layout \<Rightarrow> image_grid \<Rightarrow> int \<Rightarrow> int \<Rightarrow> int \<times> int \<times> int \<times> int" where
  "cell_box lay s row col =
     (let x = sum_list (map (cell_width lay s) (py_range 0 col));
          y = sum_list (map (cell_height lay s) (py_range 0 row))
      in (x, y, x + cell_width lay s col, y + cell_height lay s row))"

subsection \<open>The jobs and their start\<close>

text \<open>
  What lies outside the program is a parameter: \<open>truetype\<close> is \<open>ImageFont.truetype\<close>
  (\<open>None\<close> where it raises), \<open>timestamp\<close> the formatted \<open>datetime.now()\<close>, and
  \<open>png_drawing\<close>, \<open>html_writing\<close> say how the rest of the \<open>try\<close> block of each job ends
  (canvas, decoding, drawing, encoding and writing files): it runs to its end or raises
  an \<open>Exception\<close>, in both cases with the progress value it wrote last.
\<close>

datatype outcome = Completed real | Raised real

record export_env =
  truetype :: "string \<Rightarrow> int \<Rightarrow> pil_font option"
  timestamp :: string
  png_drawing :: outcome
  html_writing :: outcome

text \<open>
  \<open>_export_grid\<close> and \<open>_export_html\<close>: every exception raised inside is caught by
  \<open>except Exception\<close> and turned into the result \<open>None\<close>.
\<close>

definition export_grid :: "export_env \<Rightarrow> string \<Rightarrow> image_grid \<Rightarrow> string option \<times> image_grid" where
  "export_grid env filename s =
     (let filename = (if filename = [] then ''grid_export_'' @ timestamp env @ ''.png'' else filename)
      in case truetype env ''arial.ttf'' FONT_SIZE of
           None \<Rightarrow> (None, s)
         | Some font \<Rightarrow>
             (case export_layout font s of
                Inl e \<Rightarrow> (None, s)
              | Inr lay \<Rightarrow>
                  (case png_drawing env of
                     Raised progress \<Rightarrow> (None, s\<lparr>current_progress := progress\<rparr>)
                   | Completed progress \<Rightarrow> (Some filename, s\<lparr>current_progress := progress\<rparr>))))"

definition export_html :: "export_env \<Rightarrow> string \<Rightarrow> image_grid \<Rightarrow> string option \<times> image_grid" where
  "export_html env output_folder s =
     (case html_writing env of
        Raised progress \<Rightarrow> (None, s\<lparr>current_progress := progress\<rparr>)
      | Completed progress \<Rightarrow>
          (Some (path_join output_folder ''index.html''), s\<lparr>current_progress := progress\<rparr>))"

text \<open>
  A started job is the closure \<open>export_thread\<close> handed to \<open>threading.Thread\<close>; running
  it is a function of the viewer at that moment.  The \<open>put\<close> on the queue follows the
  call inside \<open>try\<close>, the \<open>finally\<close> clause clears the flag.
\<close>

datatype export_job = GridJob string | HtmlJob string

definition job_kind :: "export_job \<Rightarrow> string" where
  "job_kind job = (case job of GridJob filename \<Rightarrow> ''grid'' | HtmlJob output_folder \<Rightarrow> ''html'')"

definition export_thread :: "export_env \<Rightarrow> export_job \<Rightarrow> image_grid \<Rightarrow> image_grid" where
  "export_thread env job s =
     (case job of
        GridJob filename \<Rightarrow>
          (case export_grid env filename s of (result, s1) \<Rightarrow>
             (s1\<lparr>export_queue := export_queue s1 @ [(''grid'', result)]\<rparr>)
               \<lparr>export_in_progress := False\<rparr>)
      | HtmlJob output_folder \<Rightarrow>
          (case export_html env output_folder s of (result, s1) \<Rightarrow>
             (s1\<lparr>export_queue := export_queue s1 @ [(''html'', result)]\<rparr>)
               \<lparr>export_in_progress := False\<rparr>))"

text \<open>
  \<open>start_export_grid\<close> and \<open>start_export_html\<close> return the value of the call, the job
  they started (if any) and the viewer.
\<close>

definition start_export_grid ::
  "export_env \<Rightarrow> string option \<Rightarrow> image_grid \<Rightarrow> string option \<times> export_job option \<times> image_grid" where
  "start_export_grid env filename s =
     (if export_in_progress s then (None, None, s)
      else
        let s1 = s\<lparr>export_in_progress := True, current_progress := 0,
                    current_message := ''Exporting PNG...''\<rparr>;
            filename = (case filename of
                          None \<Rightarrow> ''grid_export_'' @ timestamp env @ ''.png''
                        | Some f \<Rightarrow> if f = [] then ''grid_export_'' @ timestamp env @ ''.png'' else f)
        in (Some filename, Some (GridJob filename), s1))"

definition start_export_html ::
  "string \<Rightarrow> image_grid \<Rightarrow> string option \<times> export_job option \<times> image_grid" where
  "start_export_html output_folder s =
     (if export_in_progress s then (None, None, s)
      else
        let s1 = s\<lparr>export_in_progress := True, current_progress := 0,
                    current_message := ''Exporting HTML...''\<rparr>
        in (Some (path_join output_folder ''index.html''), Some (HtmlJob output_folder), s1))"

text \<open>
  A PIL font of fixed pitch (7 pixels a character, 11 pixels high), an environment in
  which it loads and both jobs run to their end, and the example viewer back in the
  grid view.
\<close>

definition font_pitch7 :: pil_font where
  "font_pitch7 = \<lparr>getbbox = (\<lambda>t. (0, 0, 7 * int (length t), 11))\<rparr>"

definition env_example :: export_env where
  "env_example = \<lparr>truetype = (\<lambda>name sz. Some font_pitch7), timestamp = ''20240101_120000'',
                   png_drawing = Completed 1, html_writing = Completed 1\<rparr>"

definition browsing_example :: image_grid where
  "browsing_example =
     viewer_example\<lparr>fullscreen_image := None, fullscreen_original := None,
                    fullscreen_row := None, fullscreen_col := None\<rparr>"

definition exporting_example :: image_grid where
  "exporting_example = browsing_example\<lparr>export_in_progress := True\<rparr>"

section \<open>Properties of the built grid\<close>

lemma collect_filenames_Inr:
  "collect_filenames fs folders acc = Inr A \<Longrightarrow>
   A = acc \<union> set (concat (map (\<lambda>bp. listed_variants fs (snd bp)) folders))"
proof (induction fs folders acc rule: collect_filenames.induct)
  case (1 fs all_filenames)
  then show ?case by simp
next
  case (2 fs base_img folder_path rest all_filenames)
  show ?case
  proof (cases "isdir fs folder_path")
    case True
    with "2.prems" obtain es where es: "listdir fs folder_path = Some es"
      by (cases "listdir fs folder_path") auto
    from "2.prems" True es
    have "collect_filenames fs rest (all_filenames \<union> set (filter is_supported es)) = Inr A"
      by simp
    from "2.IH"(1)[OF True es this]
    have "A = (all_filenames \<union> set (filter is_supported es)) \<union>
            set (concat (map (\<lambda>bp. listed_variants fs (snd bp)) rest))" .
    moreover have "listed_variants fs folder_path = filter is_supported es"
      using True es by (simp add: listed_variants_def)
    ultimately show ?thesis by (simp add: Un_assoc)
  next
    case False
    with "2.prems" have "collect_filenames fs rest all_filenames = Inr A" by simp
    from "2.IH"(2)[OF False this]
    have "A = all_filenames \<union> set (concat (map (\<lambda>bp. listed_variants fs (snd bp)) rest))" .
    moreover have "listed_variants fs folder_path = []"
      using False by (simp add: listed_variants_def)
    ultimately show ?thesis by simp
  qed
qed

lemma update_fresh: "k \<notin> fst ` set al \<Longrightarrow> AList.update k v al = al @ [(k, v)]"
  by (induction al) auto

lemma fill_rows_append:
  "\<forall>k \<in> fst ` set g. k < i \<Longrightarrow>
   fill_rows fs folders i names g =
     g @ zip (map (\<lambda>n. i + int n) [0..<length names]) (map (variant_row fs folders) names)"
proof (induction names arbitrary: i g)
  case Nil
  then show ?case by simp
next
  case (Cons f names)
  have fresh: "i \<notin> fst ` set g" using Cons.prems by auto
  have step: "AList.update i (variant_row fs folders f) g = g @ [(i, variant_row fs folders f)]"
    by (rule update_fresh[OF fresh])
  have below: "\<forall>k \<in> fst ` set (g @ [(i, variant_row fs folders f)]). k < i + 1"
    using Cons.prems by auto
  have "map (\<lambda>n. i + int n) [0..<Suc (length names)]
          = i # map (\<lambda>n. i + int n) (map Suc [0..<length names])"
    by (simp only: map_Suc_upt upt_conv_Cons[of 0 "Suc (length names)"]) simp
  then have shift: "map (\<lambda>n. i + int n) [0..<length (f # names)]
                  = i # map (\<lambda>n. i + 1 + int n) [0..<length names]"
    by (simp add: comp_def add.commute add.left_commute del: upt_Suc)
  show ?case
    unfolding shift using Cons.IH[OF below] step by simp
qed

lemma build_grid_rows:
  assumes built: "build_grid fs base_folder subfolders_dir = Inr g"
      and listed: "listdir fs base_folder = Some entries"
      and nonempty: "filter is_supported entries \<noteq> []"
  shows "\<exists>folders row0 row1.
           length folders = length (filter is_supported entries) \<and>
           length row0 = 1 + length folders \<and> length row1 = 1 + length folders \<and>
           g = (0, row0) # (1, row1) #
               zip (map (\<lambda>n. 2 + int n)
                      [0..<length (sorted_list_of_set (variant_filenames fs subfolders_dir entries))])
                   (map (variant_row fs folders)
                      (sorted_list_of_set (variant_filenames fs subfolders_dir entries)))"
proof -
  define folders where
    "folders = map (\<lambda>base_img. (base_img, path_join subfolders_dir (fst (splitext base_img))))
                 (sort (filter is_supported entries))"
  define row0 where "row0 = '''' # map (\<lambda>(base_img, folder_path). basename folder_path) folders"
  define row1 where
    "row1 = ''Base Images'' # map (\<lambda>(base_img, folder_path). path_join base_folder base_img) folders"
  from built listed nonempty obtain A where
    coll: "collect_filenames fs folders {} = Inr A" and
    g: "g = fill_rows fs folders 2 (sorted_list_of_set A)
              (AList.update 1 row1 (AList.update 0 row0 []))"
    by (auto simp: build_grid_def Let_def folders_def row0_def row1_def split: sum.splits)
  have "A = set (concat (map (\<lambda>bp. listed_variants fs (snd bp)) folders))"
    using collect_filenames_Inr[OF coll] by simp
  also have "\<dots> = variant_filenames fs subfolders_dir entries"
    by (simp add: folders_def variant_filenames_def variant_folder_def comp_def)
  finally have A: "A = variant_filenames fs subfolders_dir entries" .
  have base: "AList.update 1 row1 (AList.update (0::int) row0 []) = [(0, row0), (1, row1)]"
    by simp
  have "\<forall>k \<in> fst ` set [(0::int, row0), (1, row1)]. k < 2" by simp
  from fill_rows_append[OF this, of fs folders "sorted_list_of_set A"]
  have "g = (0, row0) # (1, row1) #
            zip (map (\<lambda>n. 2 + int n) [0..<length (sorted_list_of_set A)])
                (map (variant_row fs folders) (sorted_list_of_set A))"
    unfolding g base by simp
  moreover have "length folders = length (filter is_supported entries)"
    by (simp add: folders_def)
  moreover have "length row0 = 1 + length folders" "length row1 = 1 + length folders"
    by (simp_all add: row0_def row1_def)
  ultimately show ?thesis unfolding A by blast
qed

lemma upto_as_upt: "[i..i + int n - 1] = map (\<lambda>k. i + int k) [0..<n]"
proof (induction n)
  case 0
  then show ?case by simp
next
  case (Suc n)
  have "[i..i + int (Suc n) - 1] = [i..i + int n - 1] @ [i + int n]"
    using upto_rec2[of i "i + int n"] by (simp add: algebra_simps)
  with Suc show ?case by simp
qed

lemma variant_row_names_zip:
  assumes g: "g = (0, row0) # (1, row1) #
                  zip (map (\<lambda>n. 2 + int n) [0..<length names]) (map (variant_row fs folders) names)"
  shows "variant_row_names g = names"
proof -
  let ?ks = "map (\<lambda>n. 2 + int n) [0..<length names]"
  let ?rows = "map (variant_row fs folders) names"
  have len: "length g = 2 + length names" by (simp add: g)
  have idx: "[2..int (length g) - 1] = map (\<lambda>k. 2 + int k) [0..<length names]"
    using upto_as_upt[of 2 "length names"] by (simp add: len)
  have dist: "distinct ?ks" by (simp add: distinct_map inj_on_def)
  have look: "map_of g (2 + int k) = Some (names ! k # tl (variant_row fs folders (names ! k)))"
    if k: "k < length names" for k
  proof -
    have "map_of (zip ?ks ?rows) (?ks ! k) = Some (?rows ! k)"
      by (rule map_of_zip_nth) (use k dist in simp_all)
    moreover have "?ks ! k = 2 + int k" using k by simp
    moreover have "?rows ! k = names ! k # tl (variant_row fs folders (names ! k))"
      using k by (simp add: variant_row_def)
    ultimately show ?thesis by (simp add: g)
  qed
  have "variant_row_names g = map (\<lambda>k. names ! k) [0..<length names]"
    unfolding variant_row_names_def idx by (simp add: look comp_def)
  then show ?thesis by (simp add: map_nth)
qed

text \<open>
  Claim C1.  Whenever \<open>build_grid\<close> returns a grid for a base folder that lists at least
  one supported image, the grid has \<open>2 +\<close> (number of distinct variant file names found
  across the variant folders) rows, its row indices are \<open>0, 1, ..., rows - 1\<close>, and every
  row, rows 0 and 1 included, has \<open>1 +\<close> (number of base images) cells.
\<close>

theorem build_grid_shape:
  assumes "build_grid fs base_folder subfolders_dir = Inr g"
      and "listdir fs base_folder = Some entries"
      and "filter is_supported entries \<noteq> []"
  shows "length g = 2 + card (variant_filenames fs subfolders_dir entries) \<and>
         map fst g = map int [0..<length g] \<and>
         (\<forall>row \<in> snd ` set g. length row = 1 + length (filter is_supported entries))"
proof -
  from build_grid_rows[OF assms] obtain folders row0 row1 where
    lf: "length folders = length (filter is_supported entries)" and
    l0: "length row0 = 1 + length folders" and l1: "length row1 = 1 + length folders" and
    g: "g = (0, row0) # (1, row1) #
            zip (map (\<lambda>n. 2 + int n)
                   [0..<length (sorted_list_of_set (variant_filenames fs subfolders_dir entries))])
                (map (variant_row fs folders)
                   (sorted_list_of_set (variant_filenames fs subfolders_dir entries)))"
    by blast
  let ?names = "sorted_list_of_set (variant_filenames fs subfolders_dir entries)"
  have len: "length g = 2 + length ?names" by (simp add: g)
  have rows: "length g = 2 + card (variant_filenames fs subfolders_dir entries)"
    by (simp add: len)
  have "map fst g = 0 # 1 # map (\<lambda>n. 2 + int n) [0..<length ?names]"
    by (simp add: g)
  also have "\<dots> = map int [0..<2 + length ?names]"
  proof -
    have "[0..<2 + length ?names] = [0..<2] @ [2..<2 + length ?names]"
      by (rule upt_add_eq_append) simp
    also have "[2..<2 + length ?names] = map (\<lambda>n. 2 + n) [0..<length ?names]"
      using map_add_upt[of 2 "length ?names"] by (simp add: add.commute)
    also have "[0..<2] = [0, Suc 0]" by (simp add: upt_conv_Cons)
    finally show ?thesis by (simp add: comp_def)
  qed
  finally have keys: "map fst g = map int [0..<length g]" by (simp add: len)
  have vr: "length (variant_row fs folders f) = 1 + length folders" for f
    by (simp add: variant_row_def)
  have "\<forall>row \<in> snd ` set g. length row = 1 + length (filter is_supported entries)"
    using l0 l1 lf vr unfolding g by (auto dest!: set_zip_rightD)
  with rows keys show ?thesis by blast
qed

lemma build_grid_example: "build_grid fs_example ''base'' ''variants'' = Inr grid_example"
  by code_simp

lemma listdir_example:
  "listdir fs_example ''base'' = Some [''dog.jpg'', ''cat.png'', ''notes.txt'']"
  by (simp add: fs_example_def)

lemma supported_example: "filter is_supported [''dog.jpg'', ''cat.png'', ''notes.txt''] \<noteq> []"
  by code_simp

theorem build_grid_shape_witness:
  "build_grid fs_example ''base'' ''variants'' = Inr grid_example \<and>
   listdir fs_example ''base'' = Some [''dog.jpg'', ''cat.png'', ''notes.txt''] \<and>
   filter is_supported [''dog.jpg'', ''cat.png'', ''notes.txt''] \<noteq> [] \<and>
   length grid_example =
     2 + card (variant_filenames fs_example ''variants'' [''dog.jpg'', ''cat.png'', ''notes.txt'']) \<and>
   map fst grid_example = map int [0..<length grid_example] \<and>
   list_all (\<lambda>row. length row = 1 + length (filter is_supported [''dog.jpg'', ''cat.png'', ''notes.txt'']))
     (map snd grid_example)"
  using build_grid_shape[OF build_grid_example listdir_example supported_example]
    build_grid_example listdir_example supported_example
  by (simp add: list_all_iff)


text \<open>
  Claim C7, as amended.  The file names heading the rows \<open>2, 3, ...\<close> of a built grid are
  the distinct supported file names found in the variant folders, each once, in the
  order of \<open>sorted\<close>: lexicographic by character code, so case-sensitive.  The list is
  a function of that set of names alone, hence the same on every build from the same
  file system state.
\<close>

theorem variant_rows_sorted_by_code_point:
  assumes "build_grid fs base_folder subfolders_dir = Inr g"
      and "listdir fs base_folder = Some entries"
      and "filter is_supported entries \<noteq> []"
  shows "variant_row_names g = sorted_list_of_set (variant_filenames fs subfolders_dir entries) \<and>
         sorted (variant_row_names g) \<and> distinct (variant_row_names g) \<and>
         set (variant_row_names g) = variant_filenames fs subfolders_dir entries"
proof -
  from build_grid_rows[OF assms] obtain folders row0 row1 where
    g: "g = (0, row0) # (1, row1) #
            zip (map (\<lambda>n. 2 + int n)
                   [0..<length (sorted_list_of_set (variant_filenames fs subfolders_dir entries))])
                (map (variant_row fs folders)
                   (sorted_list_of_set (variant_filenames fs subfolders_dir entries)))"
    by blast
  have names: "variant_row_names g = sorted_list_of_set (variant_filenames fs subfolders_dir entries)"
    by (rule variant_row_names_zip[OF g])
  have fin: "finite (variant_filenames fs subfolders_dir entries)"
    by (simp add: variant_filenames_def)
  show ?thesis unfolding names using fin by simp
qed

theorem variant_rows_sorted_by_code_point_witness:
  "build_grid fs_example ''base'' ''variants'' = Inr grid_example \<and>
   listdir fs_example ''base'' = Some [''dog.jpg'', ''cat.png'', ''notes.txt''] \<and>
   filter is_supported [''dog.jpg'', ''cat.png'', ''notes.txt''] \<noteq> [] \<and>
   variant_row_names grid_example =
     sorted_list_of_set (variant_filenames fs_example ''variants'' [''dog.jpg'', ''cat.png'', ''notes.txt'']) \<and>
   sorted (variant_row_names grid_example) \<and> distinct (variant_row_names grid_example)"
  using variant_rows_sorted_by_code_point[OF build_grid_example listdir_example supported_example]
    build_grid_example listdir_example supported_example
  by simp

text \<open>
  The claim as stated fails: in the example tree the rows come out as \<open>B.png\<close>, \<open>a.png\<close>,
  which is not ascending in the case-insensitive order.
\<close>

theorem variant_rows_not_caseless_sorted:
  "(case build_grid fs_example ''base'' ''variants'' of
      Inl e \<Rightarrow> False
    | Inr g \<Rightarrow> variant_row_names g = [''B.png'', ''a.png''] \<and>
               \<not> sorted_wrt caseless_le (variant_row_names g))"
  by code_simp




section \<open>Properties of the viewport and of fullscreen navigation\<close>

text \<open>
  Claim C10.  While a fullscreen image is focused (\<open>fullscreen_image\<close> holds a path),
  \<open>zoom\<close>, \<open>scroll\<close> and \<open>enforce_scroll_bounds\<close> return at once, whatever their
  arguments: the whole viewer, and so \<open>zoom_level\<close>, \<open>cell_size\<close> and \<open>scroll_offset\<close>,
  is left as it was.
\<close>

theorem fullscreen_freezes_viewport:
  assumes "truthy (fullscreen_image s)"
  shows "zoom direction mouse_pos s = Inr s \<and> scroll dx dy s = s \<and>
         enforce_scroll_bounds screen_size s = s"
  using assms by (simp add: zoom_def scroll_def enforce_scroll_bounds_def)

theorem fullscreen_freezes_viewport_witness:
  "truthy (fullscreen_image viewer_example) \<and>
   zoom 1 (Some (10, 40)) viewer_example = Inr viewer_example \<and>
   scroll 30 0 viewer_example = viewer_example \<and>
   enforce_scroll_bounds (800, 600) viewer_example = viewer_example"
proof -
  have t: "truthy (fullscreen_image viewer_example)"
    by (simp add: viewer_example_def truthy_def)
  from fullscreen_freezes_viewport[OF t] t show ?thesis by simp
qed

lemma py_get_in_range: "0 \<le> i \<Longrightarrow> i < int (length xs) \<Longrightarrow> py_get xs i = Inr (xs ! nat i)"
  by (simp add: py_get_def)

lemma toggle_moves:
  assumes "map_of (grid s) row = Some cells" "0 \<le> col" "col < int (length cells)"
      and "\<not> (fullscreen_row s = Some row \<and> fullscreen_col s = Some col)"
  shows "\<exists>s'. toggle_fullscreen decode row col s = Inr s' \<and> focused_at s' row col \<and>
              grid s' = grid s \<and> max_rows s' = max_rows s"
  using assms by (auto simp: toggle_fullscreen_def py_get_in_range focused_at_def)

lemma navigate_unfocused:
  "\<not> truthy (fullscreen_image s) \<Longrightarrow> navigate_fullscreen decode direction s = Inr s"
  by (simp add: navigate_fullscreen_def split: option.splits)

lemma navigate_left:
  assumes "focused_at s row col" "truthy (fullscreen_image s)"
  shows "navigate_fullscreen decode ''left'' s =
           (if max 1 (col - 1) = col then Inr s
            else (case map_of (grid s) row of
                    None \<Rightarrow> Inr s
                  | Some cells \<Rightarrow> if max 1 (col - 1) \<ge> int (length cells) then Inr s
                                  else toggle_fullscreen decode row (max 1 (col - 1)) s))"
  using assms by (simp add: navigate_fullscreen_def focused_at_def)

lemma navigate_right:
  assumes "focused_at s row col" "truthy (fullscreen_image s)" "map_of (grid s) row = Some cells"
  shows "navigate_fullscreen decode ''right'' s =
           (if col + 1 < int (length cells) then toggle_fullscreen decode row (col + 1) s else Inr s)"
  using assms by (simp add: navigate_fullscreen_def focused_at_def)

lemma navigate_up:
  assumes "focused_at s row col" "truthy (fullscreen_image s)"
  shows "navigate_fullscreen decode ''up'' s =
           (if max 1 (row - 1) = row then Inr s
            else (case map_of (grid s) (max 1 (row - 1)) of
                    None \<Rightarrow> Inr s
                  | Some cells \<Rightarrow> if col \<ge> int (length cells) then Inr s
                                  else toggle_fullscreen decode (max 1 (row - 1)) col s))"
  using assms by (simp add: navigate_fullscreen_def focused_at_def)

lemma navigate_down:
  assumes "focused_at s row col" "truthy (fullscreen_image s)"
  shows "navigate_fullscreen decode ''down'' s =
           (if row + 1 < max_rows s
            then (case map_of (grid s) (row + 1) of
                    None \<Rightarrow> Inr s
                  | Some cells \<Rightarrow> if col \<ge> int (length cells) then Inr s
                                  else toggle_fullscreen decode (row + 1) col s)
            else Inr s)"
  using assms by (simp add: navigate_fullscreen_def focused_at_def)

lemma navigate_other:
  assumes "direction \<noteq> ''left''" "direction \<noteq> ''right''" "direction \<noteq> ''up''" "direction \<noteq> ''down''"
  shows "navigate_fullscreen decode direction s = Inr s"
  using assms by (simp add: navigate_fullscreen_def split: option.splits)

text \<open>
  Claim C6.  From a state focused on a data cell \<open>(row, col)\<close> (\<open>row \<ge> 1\<close>, \<open>col \<ge> 1\<close>,
  \<open>row < max_rows\<close>, \<open>col\<close> inside the row), \<open>navigate_fullscreen\<close> returns, for every
  direction string, a state that is again focused on a data cell inside the same
  bounds; and when the neighbour aimed at lies outside the bounds, or the string is no
  direction, the state is unchanged.
\<close>

theorem navigate_fullscreen_stays_in_bounds:
  assumes foc: "focused_at s row col" and inb: "in_data_bounds s row col"
  shows "\<exists>s'. navigate_fullscreen decode direction s = Inr s' \<and>
              (\<exists>row' col'. focused_at s' row' col' \<and> in_data_bounds s' row' col') \<and>
              (case nav_target direction row col of
                 None \<Rightarrow> s' = s
               | Some (row', col') \<Rightarrow> \<not> in_data_bounds s row' col' \<longrightarrow> s' = s)"
proof -
  from inb obtain cells where cells: "map_of (grid s) row = Some cells"
    and bounds: "1 \<le> row" "1 \<le> col" "row < max_rows s" "col < int (length cells)"
    by (auto simp: in_data_bounds_def split: option.splits)
  have stay: ?thesis
    if "navigate_fullscreen decode direction s = Inr s"
       "case nav_target direction row col of None \<Rightarrow> True
        | Some (row', col') \<Rightarrow> \<not> in_data_bounds s row' col'"
    using that foc inb by (auto split: option.splits)
  have move: ?thesis
    if "navigate_fullscreen decode direction s = toggle_fullscreen decode row' col' s"
       "nav_target direction row col = Some (row', col')"
       "in_data_bounds s row' col'" "(row', col') \<noteq> (row, col)"
    for row' col'
  proof -
    from that(3) obtain cells' where c': "map_of (grid s) row' = Some cells'"
      and b': "1 \<le> row'" "1 \<le> col'" "row' < max_rows s" "col' < int (length cells')"
      by (auto simp: in_data_bounds_def split: option.splits)
    from that(4) foc have "\<not> (fullscreen_row s = Some row' \<and> fullscreen_col s = Some col')"
      by (auto simp: focused_at_def)
    from toggle_moves[OF c' _ b'(4) this, of decode] b'(2)
    obtain s' where s': "toggle_fullscreen decode row' col' s = Inr s'" "focused_at s' row' col'"
      "grid s' = grid s" "max_rows s' = max_rows s"
      by auto
    have "in_data_bounds s' row' col'"
      using that(3) s'(3,4) by (simp add: in_data_bounds_def)
    with s' that show ?thesis by auto
  qed
  show ?thesis
  proof (cases "truthy (fullscreen_image s)")
    case False
    from navigate_unfocused[OF False, of decode direction] foc inb show ?thesis
      by (auto split: option.splits)
  next
    case True
    consider (left) "direction = ''left''" | (right) "direction = ''right''"
      | (up) "direction = ''up''" | (down) "direction = ''down''"
      | (other) "direction \<noteq> ''left''" "direction \<noteq> ''right''"
                "direction \<noteq> ''up''" "direction \<noteq> ''down''"
      by blast
    then show ?thesis
    proof cases
      case left
      show ?thesis
      proof (cases "col = 1")
        case True
        show ?thesis
          by (rule stay)
             (use left True navigate_left[OF foc \<open>truthy (fullscreen_image s)\<close>, of decode] in
               \<open>simp_all add: nav_target_def in_data_bounds_def\<close>)
      next
        case False
        show ?thesis
          by (rule move[of row "col - 1"])
             (use left False bounds cells navigate_left[OF foc \<open>truthy (fullscreen_image s)\<close>, of decode] in
               \<open>simp_all add: nav_target_def in_data_bounds_def\<close>)
      qed
    next
      case right
      show ?thesis
      proof (cases "col + 1 < int (length cells)")
        case True
        show ?thesis
          by (rule move[of row "col + 1"])
             (use right True bounds cells
                  navigate_right[OF foc \<open>truthy (fullscreen_image s)\<close> cells, of decode] in
               \<open>simp_all add: nav_target_def in_data_bounds_def\<close>)
      next
        case False
        show ?thesis
          by (rule stay)
             (use right False bounds cells
                  navigate_right[OF foc \<open>truthy (fullscreen_image s)\<close> cells, of decode] in
               \<open>simp_all add: nav_target_def in_data_bounds_def\<close>)
      qed
    next
      case up
      note nav = navigate_up[OF foc \<open>truthy (fullscreen_image s)\<close>, of decode]
      show ?thesis
      proof (cases "in_data_bounds s (row - 1) col")
        case True
        show ?thesis
          by (rule move[of "row - 1" col])
             (use up True bounds nav in
               \<open>auto simp add: nav_target_def in_data_bounds_def split: option.splits\<close>)
      next
        case False
        show ?thesis
          by (rule stay)
             (use up False bounds nav in
               \<open>auto simp add: nav_target_def in_data_bounds_def split: option.splits\<close>)
      qed
    next
      case down
      note nav = navigate_down[OF foc \<open>truthy (fullscreen_image s)\<close>, of decode]
      show ?thesis
      proof (cases "in_data_bounds s (row + 1) col")
        case True
        show ?thesis
          by (rule move[of "row + 1" col])
             (use down True bounds nav in
               \<open>auto simp add: nav_target_def in_data_bounds_def split: option.splits\<close>)
      next
        case False
        show ?thesis
          by (rule stay)
             (use down False bounds nav in
               \<open>auto simp add: nav_target_def in_data_bounds_def split: option.splits\<close>)
      qed
    next
      case other
      show ?thesis
        by (rule stay) (use other navigate_other[OF other, of decode s] in \<open>simp_all add: nav_target_def\<close>)
    qed
  qed
qed

theorem navigate_fullscreen_stays_in_bounds_witness:
  "focused_at viewer_example 2 1 \<and> in_data_bounds viewer_example 2 1 \<and>
   (\<exists>s'. navigate_fullscreen decode_all ''down'' viewer_example = Inr s' \<and>
         (\<exists>row' col'. focused_at s' row' col' \<and> in_data_bounds s' row' col'))"
proof -
  have f: "focused_at viewer_example 2 1"
    by (simp add: focused_at_def viewer_example_def)
  have b: "in_data_bounds viewer_example 2 1"
    by (simp add: in_data_bounds_def viewer_example_def grid_example_def)
  from navigate_fullscreen_stays_in_bounds[OF f b, of decode_all "''down''"] f b
  show ?thesis by blast
qed

section \<open>Properties of the image cache\<close>

lemma add_visible_cols_Inr:
  "add_visible_cols cells cols acc = Inr V \<Longrightarrow>
   V = acc \<union> {p. \<exists>col \<in> set cols. py_get cells col = Inr p}"
proof (induction cells cols acc rule: add_visible_cols.induct)
  case (1 cells visible_paths)
  then show ?case by simp
next
  case (2 cells col cols visible_paths)
  from "2.prems" obtain path where path: "py_get cells col = Inr path"
    and rest: "add_visible_cols cells cols (insert path visible_paths) = Inr V"
    by (auto split: sum.splits)
  from "2.IH"[OF path rest] path show ?case by auto
qed

lemma add_visible_rows_Inr:
  "add_visible_rows g start_col end_col rows acc = Inr V \<Longrightarrow> p \<in> V \<Longrightarrow>
   p \<in> acc \<or>
   (\<exists>row \<in> set rows. \<exists>cells. map_of g row = Some cells \<and>
      (\<exists>col \<in> set (py_range start_col (min (end_col + 1) (int (length cells)))).
         py_get cells col = Inr p))"
proof (induction g start_col end_col rows acc rule: add_visible_rows.induct)
  case (1 g start_col end_col visible_paths)
  then show ?case by simp
next
  case (2 g start_col end_col row rows visible_paths)
  show ?case
  proof (cases "map_of g row")
    case None
    with "2.prems" have "add_visible_rows g start_col end_col rows visible_paths = Inr V" by simp
    from "2.IH"(1)[OF None this "2.prems"(2)] show ?thesis by auto
  next
    case (Some cells)
    with "2.prems" obtain W where
      W: "add_visible_cols cells (py_range start_col (min (end_col + 1) (int (length cells))))
            visible_paths = Inr W"
      and rest: "add_visible_rows g start_col end_col rows W = Inr V"
      by (auto split: sum.splits)
    from "2.IH"(2)[OF Some W rest "2.prems"(2)]
    consider "p \<in> W"
      | "\<exists>row \<in> set rows. \<exists>cells. map_of g row = Some cells \<and>
           (\<exists>col \<in> set (py_range start_col (min (end_col + 1) (int (length cells)))).
              py_get cells col = Inr p)"
      by blast
    then show ?thesis
    proof cases
      case 1
      with add_visible_cols_Inr[OF W] Some show ?thesis by auto
    next
      case 2
      then show ?thesis by auto
    qed
  qed
qed

lemma evict_keys:
  "fst ` set (evict V f paths cache) =
     {k \<in> fst ` set cache. k \<in> set paths \<longrightarrow> (k \<in> V \<or> Some k = f)}"
proof (induction paths arbitrary: cache)
  case Nil
  then show ?case by simp
next
  case (Cons path paths)
  have del: "fst ` set (AList.delete path cache) = fst ` set cache - {path}"
    by (auto simp: AList.delete_eq)
  show ?case
    unfolding evict.simps Cons.IH using del by auto
qed

text \<open>
  Claim C4.  After \<open>unload_distant_images\<close> has run on a visible range, every key left in
  the image cache is the value of a cell inside that range or is the current fullscreen
  image.  (For a column index \<open>col \<ge> 0\<close> the value \<open>grid[row][col]\<close> is the cell of that
  column; \<open>get_visible_cells\<close> never returns a negative start index, and on such a range
  the method always returns.)
\<close>

theorem unload_keeps_visible_or_fullscreen:
  assumes "unload_distant_images visible_cells s = Inr s'"
  shows "\<forall>path \<in> fst ` set (image_cache s').
           in_visible_range (grid s) visible_cells path \<or> fullscreen_image s' = Some path"
proof
  fix path assume key: "path \<in> fst ` set (image_cache s')"
  obtain start_row end_row start_col end_col where
    vc: "visible_cells = (start_row, end_row, start_col, end_col)"
    by (cases visible_cells) auto
  from assms vc obtain V where
    V: "add_visible_rows (grid s) start_col end_col (py_range start_row (end_row + 1)) {} = Inr V"
    and s': "s' = s\<lparr>image_cache :=
                    evict V (fullscreen_image s) (map fst (image_cache s)) (image_cache s)\<rparr>"
    by (auto simp: unload_distant_images_def split: sum.splits)
  from key have "path \<in> V \<or> Some path = fullscreen_image s"
    unfolding s' by (auto simp: evict_keys)
  then show "in_visible_range (grid s) visible_cells path \<or> fullscreen_image s' = Some path"
  proof
    assume "path \<in> V"
    from add_visible_rows_Inr[OF V this]
    obtain row cells col where "row \<in> set (py_range start_row (end_row + 1))"
      "map_of (grid s) row = Some cells"
      "col \<in> set (py_range start_col (min (end_col + 1) (int (length cells))))"
      "py_get cells col = Inr path"
      by auto
    then have "in_visible_range (grid s) visible_cells path"
      unfolding in_visible_range_def vc py_range_def
      by (intro case_prodI2 bexI[of _ row] bexI[of _ col]) auto
    then show ?thesis ..
  next
    assume "Some path = fullscreen_image s"
    then show ?thesis by (simp add: s')
  qed
qed

lemma unload_example:
  "unload_distant_images (0, 1, 0, 1) viewer_example =
     Inr (viewer_example\<lparr>image_cache := [(''base/cat.png'', Decoded ''base/cat.png''),
                                        (''variants/cat/B.png'', Decoded ''variants/cat/B.png'')]\<rparr>)"
  by (simp add: unload_distant_images_def viewer_example_def grid_example_def py_range_def
        py_get_def upto.simps)

theorem unload_keeps_visible_or_fullscreen_witness:
  "unload_distant_images (0, 1, 0, 1) viewer_example =
     Inr (viewer_example\<lparr>image_cache := [(''base/cat.png'', Decoded ''base/cat.png''),
                                        (''variants/cat/B.png'', Decoded ''variants/cat/B.png'')]\<rparr>) \<and>
   list_all (\<lambda>path. in_visible_range (grid viewer_example) (0, 1, 0, 1) path \<or>
                    fullscreen_image viewer_example = Some path)
     [''base/cat.png'', ''variants/cat/B.png'']"
  using unload_keeps_visible_or_fullscreen[OF unload_example] unload_example
  by (simp add: viewer_example_def)

lemma add_visible_cols_total:
  "\<forall>col \<in> set cols. 0 \<le> col \<and> col < int (length cells) \<Longrightarrow>
   \<exists>V. add_visible_cols cells cols acc = Inr V"
  by (induction cols arbitrary: acc) (auto simp: py_get_def)

lemma add_visible_rows_total:
  "0 \<le> start_col \<Longrightarrow> \<exists>V. add_visible_rows g start_col end_col rows acc = Inr V"
proof (induction rows arbitrary: acc)
  case Nil
  then show ?case by simp
next
  case (Cons row rows)
  show ?case
  proof (cases "map_of g row")
    case None
    with Cons show ?thesis by simp
  next
    case (Some cells)
    have "\<forall>col \<in> set (py_range start_col (min (end_col + 1) (int (length cells)))).
            0 \<le> col \<and> col < int (length cells)"
      using Cons.prems by (auto simp: py_range_def)
    from add_visible_cols_total[OF this, of acc] obtain W where
      "add_visible_cols cells (py_range start_col (min (end_col + 1) (int (length cells)))) acc = Inr W"
      by blast
    with Some Cons.IH[OF Cons.prems, of W] show ?thesis by simp
  qed
qed

lemma unload_distant_images_returns:
  "0 \<le> start_col \<Longrightarrow>
   \<exists>s'. unload_distant_images (start_row, end_row, start_col, end_col) s = Inr s'"
  using add_visible_rows_total[of start_col "grid s" end_col "py_range start_row (end_row + 1)" "{}"]
  by (auto simp: unload_distant_images_def)

lemma get_visible_cells_starts:
  "get_visible_cells s w h = Inr (start_row, end_row, start_col, end_col) \<Longrightarrow>
   0 \<le> start_row \<and> 0 \<le> start_col"
  by (auto simp: get_visible_cells_def Let_def split: if_splits)

section \<open>Properties of the text fitting\<close>

lemma wrap_loop_length:
  "int (length (fst (wrap_loop font max_width max_lines remaining_text lines)))
     \<le> max max_lines (int (length lines))"
proof (induction font max_width max_lines remaining_text lines rule: wrap_loop.induct)
  case (1 font max_width max_lines remaining_text lines)
  show ?case
  proof (cases "remaining_text \<noteq> [] \<and> int (length lines) < max_lines")
    case True
    show ?thesis
    proof (cases "choose_best font max_width remaining_text \<noteq> []")
      case best: True
      from "1.IH"[OF True best] True best show ?thesis
        by (subst wrap_loop.simps) simp
    next
      case False
      with True show ?thesis by (subst wrap_loop.simps) simp
    qed
  next
    case False
    then show ?thesis by (subst wrap_loop.simps) auto
  qed
qed

lemma add_ellipsis_length:
  "lines \<noteq> [] \<or> max_lines \<noteq> 0 \<Longrightarrow>
   length (add_ellipsis font max_width max_lines (lines, remaining_text)) = length lines"
  by (cases lines rule: rev_cases) (auto simp: add_ellipsis_def)

lemma draw_wrapped_text_line_count:
  assumes "draw_wrapped_text font text (w, h) = Inr lines"
  shows "int (length lines) \<le> max 1 ((h - 10) div get_height font)"
proof (cases "text = [] \<or> strip text = []")
  case True
  with assms show ?thesis by (simp add: draw_wrapped_text_def)
next
  case False
  let ?ml = "max 1 ((h - 10) div get_height font)"
  obtain ls rem where wl: "wrap_loop font (w - 10) ?ml (strip text) [] = (ls, rem)"
    by (cases "wrap_loop font (w - 10) ?ml (strip text) []")
  from assms False have lines: "lines = add_ellipsis font (w - 10) ?ml (ls, rem)"
    by (auto simp: draw_wrapped_text_def Let_def wl split: if_splits)
  have "int (length ls) \<le> ?ml"
    using wrap_loop_length[of font "w - 10" ?ml "strip text" "[]"] by (simp add: wl)
  moreover have "length lines = length ls"
    unfolding lines by (rule add_ellipsis_length) (simp add: max_def)
  ultimately show ?thesis by simp
qed


lemma fit_prefix_fits:
  "fit_prefix font max_width remaining_text low high best = best \<or>
   size_width font (fit_prefix font max_width remaining_text low high best) \<le> max_width"
proof (induction font max_width remaining_text low high best rule: fit_prefix.induct)
  case (1 font max_width remaining_text low high best)
  show ?case
  proof (cases "low \<le> high")
    case False
    then show ?thesis by (subst fit_prefix.simps) (simp add: fit_prefix.simps)
  next
    case True
    show ?thesis
    proof (cases "size_width font (py_prefix remaining_text ((low + high) div 2)) \<le> max_width")
      case fits: True
      from "1.IH"(1)[OF True fits] True fits show ?thesis
        by (subst (1 2) fit_prefix.simps) auto
    next
      case False
      from "1.IH"(2)[OF True False] True False show ?thesis
        by (subst (1 2) fit_prefix.simps) auto
    qed
  qed
qed

lemma ellipsis_prefix_fits:
  "ellipsis_prefix font max_width remaining_text i = [] \<or>
   size_width font (ellipsis_prefix font max_width remaining_text i) \<le> max_width"
  by (induction i) auto

lemma choose_best_fits:
  "choose_best font max_width remaining_text \<noteq> [] \<Longrightarrow>
   size_width font (choose_best font max_width remaining_text) \<le> max_width"
  using fit_prefix_fits[of font max_width remaining_text 0 "int (length remaining_text)" "[]"]
    ellipsis_prefix_fits[of font max_width remaining_text "length remaining_text"]
  by (auto simp: choose_best_def Let_def split: if_splits)

lemma trim_to_word_fits:
  "size_width font best \<le> max_width \<Longrightarrow>
   size_width font (trim_to_word font max_width remaining_text best) \<le> max_width"
  by (simp add: trim_to_word_def Let_def)

lemma wrap_loop_lines_fit:
  "\<forall>l \<in> set lines. size_width font l \<le> max_width \<Longrightarrow>
   \<forall>l \<in> set (fst (wrap_loop font max_width max_lines remaining_text lines)).
     size_width font l \<le> max_width"
proof (induction font max_width max_lines remaining_text lines rule: wrap_loop.induct)
  case (1 font max_width max_lines remaining_text lines)
  show ?case
  proof (cases "remaining_text \<noteq> [] \<and> int (length lines) < max_lines \<and>
                choose_best font max_width remaining_text \<noteq> []")
    case True
    then have c: "remaining_text \<noteq> [] \<and> int (length lines) < max_lines"
      and b: "choose_best font max_width remaining_text \<noteq> []" by simp_all
    have "\<forall>l \<in> set (lines @ [trim_to_word font max_width remaining_text
                                 (choose_best font max_width remaining_text)]).
            size_width font l \<le> max_width"
      using "1.prems" trim_to_word_fits[OF choose_best_fits[OF b]] by auto
    from "1.IH"[OF c b this] c b show ?thesis
      by (subst wrap_loop.simps) simp
  next
    case False
    with "1.prems" show ?thesis by (subst wrap_loop.simps) auto
  qed
qed

text \<open>
  Claim C2 (the code departs from it).  The claim: \<open>draw_wrapped_text\<close> produces at most
  \<open>max(1, (height - 10) // line_height)\<close> lines, and the measured width of every line,
  also of a last line that received the ellipsis, is at most \<open>width - 10\<close>.  The line
  count holds (\<open>draw_wrapped_text_line_count\<close>), and every line fits when the main loop
  ends (\<open>wrap_loop_lines_fit\<close>).  The final step does not keep the width: its loop
  tests \<open>last_line[:-1] + ellipsis\<close> and then stores \<open>last_line + ellipsis\<close>, one
  character more than it tested.  With a fixed-pitch font of 10 pixels a character,
  the text \<open>abcdef\<close> in a box 60 wide and 20 high is drawn as \<open>abc...\<close>: 60 pixels, where
  50 are allowed.
\<close>

theorem last_line_overflows:
  "draw_wrapped_text font_mono10 ''abcdef'' (60, 20) = Inr [''abc...''] \<and>
   size_width font_mono10 ''abc...'' > 60 - 10"
  by code_simp

section \<open>Properties of the export jobs\<close>

lemma column_0_step_range:
  "MIN_COLUMN_0_WIDTH \<le> w \<and> w \<le> MAX_COLUMN_0_WIDTH \<Longrightarrow>
   MIN_COLUMN_0_WIDTH \<le> column_0_step font g row w \<and> column_0_step font g row w \<le> MAX_COLUMN_0_WIDTH"
  by (auto simp: column_0_step_def Let_def split: option.splits list.splits prod.splits)

lemma column_0_fold_range:
  "MIN_COLUMN_0_WIDTH \<le> w \<and> w \<le> MAX_COLUMN_0_WIDTH \<Longrightarrow>
   MIN_COLUMN_0_WIDTH \<le> fold (column_0_step font g) rows w \<and>
   fold (column_0_step font g) rows w \<le> MAX_COLUMN_0_WIDTH"
proof (induction rows arbitrary: w)
  case Nil
  then show ?case by simp
next
  case (Cons row rows)
  from Cons.IH[OF column_0_step_range[OF Cons.prems]] show ?case by simp
qed

lemma row_0_loop_const:
  "row_0_loop font texts MIN_ROW_0_HEIGHT = Inr h \<Longrightarrow> h = MIN_ROW_0_HEIGHT"
proof (induction texts)
  case Nil
  then show ?case by simp
next
  case (Cons header texts)
  obtain x0 y0 x1 y1 where bb: "getbbox font ''A'' = (x0, y0, x1, y1)"
    by (cases "getbbox font ''A''") auto
  have "max MIN_ROW_0_HEIGHT
          (min (MIN_ROW_0_HEIGHT + int (length (split_on CHR 0x0A header)) * (y1 - y0)) MAX_ROW_0_HEIGHT)
        = MIN_ROW_0_HEIGHT"
    by (simp add: MIN_ROW_0_HEIGHT_def MAX_ROW_0_HEIGHT_def)
  with Cons show ?case by (auto simp: bb split: if_splits)
qed

lemma export_layout_bounds:
  assumes "export_layout font s = Inr lay"
  shows "128 \<le> column_0_width lay \<and> column_0_width lay \<le> 256 \<and> row_0_height lay = 256 \<and>
         total_width lay = column_0_width lay + (max_cols s - 1) * cell_size s \<and>
         total_height lay = row_0_height lay + (max_rows s - 1) * cell_size s"
proof -
  let ?c0 = "fold (column_0_step font (grid s)) (py_range 0 (max_rows s)) MIN_COLUMN_0_WIDTH"
  from assms obtain r0 where
    r0: "(case map_of (grid s) 0 of None \<Rightarrow> Inr MIN_ROW_0_HEIGHT
          | Some row0 \<Rightarrow> row_0_loop font row0 MIN_ROW_0_HEIGHT) = Inr r0"
    and lay: "lay = \<lparr>column_0_width = ?c0, row_0_height = r0,
                     total_width = ?c0 + (max_cols s - 1) * cell_size s,
                     total_height = r0 + (max_rows s - 1) * cell_size s\<rparr>"
    by (auto simp: export_layout_def Let_def split: sum.splits)
  have "r0 = MIN_ROW_0_HEIGHT"
    using r0 row_0_loop_const by (cases "map_of (grid s) 0") auto
  moreover have "MIN_COLUMN_0_WIDTH \<le> ?c0 \<and> ?c0 \<le> MAX_COLUMN_0_WIDTH"
    by (rule column_0_fold_range) (simp add: MIN_COLUMN_0_WIDTH_def MAX_COLUMN_0_WIDTH_def)
  ultimately show ?thesis
    by (simp add: lay MIN_ROW_0_HEIGHT_def MIN_COLUMN_0_WIDTH_def MAX_COLUMN_0_WIDTH_def)
qed

text \<open>
  Claim C9 (the code departs from it).  The claim: in the layout pass of the PNG export
  the width of column 0 lies in \<open>[128, 256]\<close>, the height of row 0 lies in \<open>[128, 200]\<close>,
  and all other rows and columns use \<open>cell_size\<close>.  The width of column 0 and the use of
  \<open>cell_size\<close> are as claimed (\<open>export_layout_bounds\<close>, \<open>cell_width_def\<close>,
  \<open>cell_height_def\<close>).  The height of row 0 is not: the constants are
  \<open>MIN_ROW_0_HEIGHT = 256\<close> and \<open>MAX_ROW_0_HEIGHT = 128\<close>, so the clamp
  \<open>max(row_0_height, min(..., MAX_ROW_0_HEIGHT))\<close> never leaves its start value 256.  On the
  example grid the layout is 128 wide in column 0 and 256 high in row 0.
\<close>

theorem png_row_0_height_exceeds_200:
  "export_layout font_pitch7 browsing_example =
     Inr \<lparr>column_0_width = 128, row_0_height = 256, total_width = 328, total_height = 556\<rparr> \<and>
   \<not> (256 \<le> MAX_HEADER_HEIGHT)"
  by code_simp

lemma export_grid_state:
  "export_grid env filename s = (result, s1) \<Longrightarrow>
   export_queue s1 = export_queue s \<and> export_in_progress s1 = export_in_progress s"
  by (auto simp: export_grid_def Let_def split: option.splits sum.splits outcome.splits)

lemma export_html_state:
  "export_html env output_folder s = (result, s1) \<Longrightarrow>
   export_queue s1 = export_queue s \<and> export_in_progress s1 = export_in_progress s"
  by (auto simp: export_html_def split: outcome.splits)

lemma export_thread_posts_once:
  "\<not> export_in_progress (export_thread env job s) \<and>
   (\<exists>result. export_queue (export_thread env job s) = export_queue s @ [(job_kind job, result)])"
proof (cases job)
  case (GridJob filename)
  obtain result s1 where r: "export_grid env filename s = (result, s1)"
    by (cases "export_grid env filename s")
  from export_grid_state[OF r] show ?thesis
    by (simp add: GridJob export_thread_def r job_kind_def)
next
  case (HtmlJob output_folder)
  obtain result s1 where r: "export_html env output_folder s = (result, s1)"
    by (cases "export_html env output_folder s")
  from export_html_state[OF r] show ?thesis
    by (simp add: HtmlJob export_thread_def r job_kind_def)
qed

text \<open>
  Claim C5.  Starting a PNG or an HTML export while one is in progress returns \<open>None\<close>,
  starts no job and leaves the viewer, and so all export state, unchanged; otherwise the
  call starts a job and sets the flag.  Running a job from any state clears the
  in-progress flag and appends exactly one tuple \<open>(kind, result)\<close> to the queue, whether
  the work inside succeeded (\<open>result\<close> is the path) or raised (\<open>result\<close> is \<open>None\<close>).
\<close>

theorem export_single_flight:
  "(export_in_progress s \<longrightarrow>
      start_export_grid env filename s = (None, None, s) \<and>
      start_export_html output_folder s = (None, None, s)) \<and>
   (\<not> export_in_progress s \<longrightarrow>
      (\<exists>f s1. start_export_grid env filename s = (Some f, Some (GridJob f), s1) \<and>
               export_in_progress s1) \<and>
      (\<exists>s1. start_export_html output_folder s =
               (Some (path_join output_folder ''index.html''), Some (HtmlJob output_folder), s1) \<and>
            export_in_progress s1)) \<and>
   \<not> export_in_progress (export_thread env job s') \<and>
   (\<exists>result. export_queue (export_thread env job s') = export_queue s' @ [(job_kind job, result)])"
  using export_thread_posts_once[of env job s']
  by (simp add: start_export_grid_def start_export_html_def Let_def)

theorem export_single_flight_witness:
  "export_in_progress exporting_example \<and>
   start_export_grid env_example None exporting_example = (None, None, exporting_example) \<and>
   start_export_html ''html_export'' exporting_example = (None, None, exporting_example) \<and>
   \<not> export_in_progress browsing_example \<and>
   (\<exists>f s1. start_export_grid env_example None browsing_example = (Some f, Some (GridJob f), s1) \<and>
            export_in_progress s1) \<and>
   \<not> export_in_progress (export_thread env_example (GridJob ''out.png'') exporting_example) \<and>
   (\<exists>result. export_queue (export_thread env_example (GridJob ''out.png'') exporting_example) =
              export_queue exporting_example @ [(''grid'', result)])"
proof -
  have p: "export_in_progress exporting_example"
    by (simp add: exporting_example_def)
  have q: "\<not> export_in_progress browsing_example"
    by (simp add: browsing_example_def viewer_example_def)
  from export_single_flight[of exporting_example env_example None "''html_export''"
         "GridJob ''out.png''" exporting_example]
       export_single_flight[of browsing_example env_example None "''html_export''"
         "GridJob ''out.png''" exporting_example] p q
  show ?thesis by (simp add: job_kind_def)
qed

end
